theory Spec2Isabelle
  imports Main "HOL-Library.Word"
begin

section \<open>Data model\<close>

text \<open>
  The indexer is a Go program. Its \<^verbatim>\<open>uint64\<close> values are 64-bit words, so that
  \<open>+\<close> and \<open>-\<close> wrap around and \<open>\<le>\<close> is the unsigned comparison, as in Go.
\<close>

type_synonym uint64 = "64 word"

text \<open>
  Go's \<^verbatim>\<open>error\<close> values. \<open>Wrap p e\<close> is \<^verbatim>\<open>fmt.Errorf(p + ", %v", e)\<close>;
  \<open>Ext m\<close> is an error produced by a collaborator outside the program (the chain node, the
  database); \<open>ErrRecordNotFound\<close> is gorm's sentinel; \<open>ErrSyntax\<close> and \<open>ErrRange\<close> are the
  two errors of \<^verbatim>\<open>strconv.Atoi\<close>.
\<close>

datatype error =
    Ext string
  | ErrRecordNotFound
  | ErrSyntax string
  | ErrRange string
  | Wrap string error

text \<open>A run-time panic of the Go program.\<close>

datatype panic = CloseOfClosedChannel

text \<open>The \<^verbatim>\<open>Block\<close> struct of the model file.\<close>

record Block =
  Number :: uint64
  Hash :: string
  Time :: uint64
  ParentHash :: string
  Transactions :: "string list"
  Confirmed :: bool

text \<open>
  The \<^verbatim>\<open>Indexer\<close> struct, as far as its fields carry data. The channel \<open>jobs\<close> is its
  buffer (oldest element first) together with the flag \<open>jobsClosed\<close>; \<open>senders\<close> holds the
  goroutines started by \<open>addJob\<close> that have not yet completed their send, each with the
  number it is sending, in the order they were started. The channel \<open>errors\<close> is unbuffered
  (\<^verbatim>\<open>make(chan error)\<close>) and so holds no value: a send on it completes only when a
  receive takes the value, and the only receive in the program is the case
  \<^verbatim>\<open>err := <-idx.errors\<close> of the \<^verbatim>\<open>select\<close> in \<^verbatim>\<open>Run\<close>.
\<close>

record Indexer =
  jobs :: "uint64 list"
  jobsClosed :: bool
  senders :: "uint64 list"
  currentLatest :: uint64

text \<open>
  A call that does not return: it panics, or it blocks for ever in a send on the error
  channel, with the error it is sending and the state of the indexer at that moment.
\<close>

datatype halt = Panics panic | BlockedSending error Indexer

definition ConfirmationNeeded :: uint64 where
  "ConfirmationNeeded = 10"

definition IndexLimit :: uint64 where
  "IndexLimit = 100"

definition MaxWorker :: nat where
  "MaxWorker = 3"

text \<open>The capacity given to \<^verbatim>\<open>make(chan uint64, 1)\<close> in \<^verbatim>\<open>NewIndexer\<close>.\<close>

definition jobsCap :: nat where
  "jobsCap = 1"

section \<open>Supervisor\<close>

text \<open>
  \<^verbatim>\<open>updateLatestNumber\<close> and \<^verbatim>\<open>makeRoutineJobs\<close> are called from one place, the
  \<^verbatim>\<open>time.Tick\<close> case of the \<^verbatim>\<open>select\<close> in \<^verbatim>\<open>Run\<close>. While they run, the goroutine of
  \<^verbatim>\<open>Run\<close> is not in its \<^verbatim>\<open>select\<close>, so nothing receives on \<open>errors\<close>: their send
  \<^verbatim>\<open>idx.errors <- ...\<close> never completes and the statements after it are not reached.

  \<^verbatim>\<open>updateLatestNumber\<close>. The first argument is what \<^verbatim>\<open>ethClient.GetBlockNumber\<close>
  returns on this call.
\<close>

definition updateLatestNumber :: "error + uint64 \<Rightarrow> Indexer \<Rightarrow> halt + Indexer" where
  "updateLatestNumber getBlockNumber idx =
     (case getBlockNumber of
        Inl err \<Rightarrow> Inl (BlockedSending (Wrap ''failed to get latest number on chain'' err) idx)
      | Inr latest \<Rightarrow> Inr (idx\<lparr>currentLatest := latest\<rparr>))"

text \<open>
  \<^verbatim>\<open>addJob\<close> starts a goroutine whose body is the send \<^verbatim>\<open>idx.jobs <- n\<close>, and returns.
\<close>

definition addJob :: "uint64 \<Rightarrow> Indexer \<Rightarrow> Indexer" where
  "addJob n idx = idx\<lparr>senders := senders idx @ [n]\<rparr>"

text \<open>\<^verbatim>\<open>close(idx.jobs)\<close>: closing a closed channel panics.\<close>

definition closeJobs :: "Indexer \<Rightarrow> halt + Indexer" where
  "closeJobs idx =
     (if jobsClosed idx then Inl (Panics CloseOfClosedChannel) else Inr (idx\<lparr>jobsClosed := True\<rparr>))"

text \<open>
  The loop of \<^verbatim>\<open>makeRoutineJobs\<close>:
  \<^verbatim>\<open>for i := from; i <= idx.currentLatest; i++ { select { case <-ctx.Done(): ...; default: idx.addJob(i) } }\<close>.
  \<open>ctxDone i\<close> tells whether the context is found cancelled when the loop checks it with
  counter \<open>i\<close>. The counter is a \<^verbatim>\<open>uint64\<close>: with \<open>currentLatest = 2^64 - 1\<close> the condition
  never fails, so the loop is a partial function and \<open>None\<close> stands for a loop that does
  not end.
\<close>

partial_function (option) addJobsLoop :: "(uint64 \<Rightarrow> bool) \<Rightarrow> uint64 \<Rightarrow> Indexer \<Rightarrow> (halt + Indexer) option" where
  "addJobsLoop ctxDone i idx =
     (if i \<le> currentLatest idx then
        (if ctxDone i then Some (closeJobs idx)
         else addJobsLoop ctxDone (i + 1) (addJob i idx))
      else Some (Inr idx))"

text \<open>
  \<^verbatim>\<open>makeRoutineJobs\<close>. The second argument is what \<^verbatim>\<open>repo.GetLatestNumber\<close> returns if it
  is called.
\<close>

definition makeRoutineJobs :: "(uint64 \<Rightarrow> bool) \<Rightarrow> error + uint64 \<Rightarrow> Indexer \<Rightarrow> (halt + Indexer) option" where
  "makeRoutineJobs ctxDone getLatestNumber idx =
     (if length (jobs idx) > 0 then Some (Inr idx)
      else case getLatestNumber of
        Inl err \<Rightarrow> Some (Inl (BlockedSending (Wrap ''failed to get latest number in DB'' err) idx))
      | Inr repoLatest \<Rightarrow>
          (let from = (if repoLatest = 0 then currentLatest idx - IndexLimit else repoLatest + 1)
           in addJobsLoop ctxDone from idx))"

text \<open>The numbers handed to \<open>addJob\<close> between two states of the indexer.\<close>

definition enqueued :: "Indexer \<Rightarrow> Indexer \<Rightarrow> uint64 list" where
  "enqueued idx idx' = drop (length (senders idx)) (senders idx')"

text \<open>The numbers \<open>a, a+1, ..., b\<close> in ascending order (empty when \<open>b < a\<close>).\<close>

definition range64 :: "uint64 \<Rightarrow> uint64 \<Rightarrow> uint64 list" where
  "range64 a b = map word_of_nat [unat a ..< Suc (unat b)]"

text \<open>
  What one call of \<open>makeRoutineJobs\<close> hands to \<open>addJob\<close> before it returns: \<open>None\<close> when
  the call does not return.
\<close>

definition scheduled :: "(uint64 \<Rightarrow> bool) \<Rightarrow> error + uint64 \<Rightarrow> Indexer \<Rightarrow> uint64 list option" where
  "scheduled ctxDone getLatestNumber idx =
     (case makeRoutineJobs ctxDone getLatestNumber idx of
        Some (Inr idx') \<Rightarrow> Some (enqueued idx idx')
      | _ \<Rightarrow> None)"

text \<open>
  \<^verbatim>\<open>NewIndexer\<close>: both channels empty, no goroutine started, \<open>currentLatest\<close> at Go's
  zero value.
\<close>

definition NewIndexer :: Indexer where
  "NewIndexer = \<lparr>jobs = [], jobsClosed = False, senders = [], currentLatest = 0\<rparr>"

text \<open>A context that is never cancelled, as \<^verbatim>\<open>context.Background()\<close>.\<close>

definition background :: "uint64 \<Rightarrow> bool" where
  "background i = False"

text \<open>
  The scheduler's steps on the job queue. A sender started by \<open>addJob\<close> completes its send
  when the channel is open and its buffer has room; a Fetch Worker's receive
  \<^verbatim>\<open>number, ok := <-idx.jobs\<close> takes the oldest buffered number. (A send on a closed
  channel panics and ends the program, so it has no successor state.)
\<close>

inductive sched :: "Indexer \<Rightarrow> Indexer \<Rightarrow> bool" where
  deliver: "n \<in> set (senders s) \<Longrightarrow> \<not> jobsClosed s \<Longrightarrow> length (jobs s) < jobsCap \<Longrightarrow>
              sched s (s\<lparr>jobs := jobs s @ [n], senders := remove1 n (senders s)\<rparr>)"
| receive: "jobs s = n # rest \<Longrightarrow> sched s (s\<lparr>jobs := rest\<rparr>)"

code_pred sched .

text \<open>
  A new indexer at chain height 500 after a discovery pass over a store whose latest
  number is 450: the pass has started the senders of 451 to 500. \<open>afterDelivery\<close> is that
  indexer after the sender of 451 has completed its send; \<open>outOfOrder\<close> is it after the
  sender of 452 has completed its send first.
\<close>

definition afterPass :: Indexer where
  "afterPass = NewIndexer\<lparr>currentLatest := 500, senders := range64 451 500\<rparr>"

definition afterDelivery :: Indexer where
  "afterDelivery = afterPass\<lparr>jobs := [451], senders := remove1 451 (senders afterPass)\<rparr>"

definition outOfOrder :: Indexer where
  "outOfOrder = afterPass\<lparr>jobs := [452], senders := remove1 452 (senders afterPass)\<rparr>"

section \<open>Confirmation Monitor\<close>

text \<open>
  The walk of \<^verbatim>\<open>ConfirmWorker\<close> over the unconfirmed blocks:
  \<^verbatim>\<open>for i := 0; i < len(blocks)-1; i++ { ... validatedBlocks = append(validatedBlocks, blocks[i]) }\<close>.
  \<open>to\<close> is the \<^verbatim>\<open>int\<close> computed before the loop; the comparison converts it back with
  \<^verbatim>\<open>uint64(to)\<close>. The loop is entered only with at least two blocks, so \<^verbatim>\<open>len(blocks)-1\<close>
  is not negative and \<open>blocks ! i\<close>, \<open>blocks ! (i + 1)\<close> are in range.
\<close>

function validateLoop :: "int \<Rightarrow> Block list \<Rightarrow> nat \<Rightarrow> Block list \<Rightarrow> Block list" where
  "validateLoop to blocks i validatedBlocks =
     (if i < length blocks - 1 then
        (if Number (blocks ! i) \<ge> word_of_int to then validatedBlocks
         else if Hash (blocks ! i) \<noteq> ParentHash (blocks ! (i + 1)) then validatedBlocks
         else validateLoop to blocks (i + 1) (validatedBlocks @ [blocks ! i]))
      else validatedBlocks)"
  by pat_completeness auto
termination
  by (relation "measure (\<lambda>(to, blocks, i, validatedBlocks). length blocks - i)") auto

declare validateLoop.simps [simp del]

text \<open>
  One pass of \<^verbatim>\<open>ConfirmWorker\<close>, the body of its \<^verbatim>\<open>time.Tick\<close> case. The arguments are
  the value of \<^verbatim>\<open>idx.currentLatest\<close> read in the pass, the result of
  \<^verbatim>\<open>repo.GetUnconfirmedBlocks()\<close>, and the repository's \<^verbatim>\<open>ConfirmBlocks\<close>. The outcome
  is the error sent on the error channel (if any), the argument of the call of
  \<^verbatim>\<open>ConfirmBlocks\<close> (if it is called), and whether the worker returns. Go's \<^verbatim>\<open>int\<close> is
  taken as 64 bits wide: \<^verbatim>\<open>int(x)\<close> of a \<^verbatim>\<open>uint64\<close> is its two's complement reading.
\<close>

record passOut =
  sentErr :: "error option"
  confirmCall :: "Block list option"
  returns :: bool

definition confirmPass :: "uint64 \<Rightarrow> error + Block list \<Rightarrow> (Block list \<Rightarrow> error option) \<Rightarrow> passOut" where
  "confirmPass latest getUnconfirmedBlocks confirmBlocks =
     (case getUnconfirmedBlocks of
        Inl err \<Rightarrow>
          \<lparr>sentErr = Some (Wrap ''failed to get unconfirmed blocks ConfirmWorker'' err),
           confirmCall = None, returns = True\<rparr>
      | Inr blocks \<Rightarrow>
          if length blocks < 2 then \<lparr>sentErr = None, confirmCall = None, returns = False\<rparr>
          else
            (let to = sint (latest - ConfirmationNeeded);
                 validatedBlocks = validateLoop to blocks 0 []
             in case confirmBlocks validatedBlocks of
                  Some err \<Rightarrow>
                    \<lparr>sentErr = Some (Wrap ''[ConfirmWorker] failed to confirm blocks'' err),
                     confirmCall = Some validatedBlocks, returns = True\<rparr>
                | None \<Rightarrow>
                    \<lparr>sentErr = None, confirmCall = Some validatedBlocks, returns = False\<rparr>))"

text \<open>
  The \<^verbatim>\<open>for { select { ... } }\<close> loop of \<^verbatim>\<open>ConfirmWorker\<close>, run over the sequence of
  cases its \<^verbatim>\<open>select\<close> takes: a tick of the timer (with what the pass reads from the indexer
  and the repository), or the cancellation of the context. The state is what the worker
  has sent on the error channel, the arguments of its \<^verbatim>\<open>ConfirmBlocks\<close> calls, and whether
  it has returned.
\<close>

datatype cwEvent =
    Tick uint64 "error + Block list" "Block list \<Rightarrow> error option"
  | CtxDone

record cwState =
  cwErrors :: "error list"
  cwConfirmed :: "Block list list"
  cwReturned :: bool

fun confirmLoop :: "cwEvent list \<Rightarrow> cwState \<Rightarrow> cwState" where
  "confirmLoop [] s = s"
| "confirmLoop (CtxDone # evs) s = s\<lparr>cwReturned := True\<rparr>"
| "confirmLoop (Tick latest getUnconfirmedBlocks confirmBlocks # evs) s =
     (let out = confirmPass latest getUnconfirmedBlocks confirmBlocks;
          s' = s\<lparr>cwErrors := cwErrors s @ (case sentErr out of None \<Rightarrow> [] | Some e \<Rightarrow> [e]),
                 cwConfirmed := cwConfirmed s @ (case confirmCall out of None \<Rightarrow> [] | Some bs \<Rightarrow> [bs])\<rparr>
      in if returns out then s'\<lparr>cwReturned := True\<rparr> else confirmLoop evs s')"

text \<open>
  \<^verbatim>\<open>ConfirmWorker\<close>: the first argument is the error of \<^verbatim>\<open>NewClient(idx.endpoint)\<close>, if
  it fails.
\<close>

definition ConfirmWorker :: "error option \<Rightarrow> cwEvent list \<Rightarrow> cwState" where
  "ConfirmWorker newClient evs =
     (case newClient of
        Some err \<Rightarrow>
          \<lparr>cwErrors = [Wrap ''[ConfirmWorker] failed to create Client in ConfirmWorker'' err],
           cwConfirmed = [], cwReturned = True\<rparr>
      | None \<Rightarrow> confirmLoop evs \<lparr>cwErrors = [], cwConfirmed = [], cwReturned = False\<rparr>)"

text \<open>
  The stopping condition of the walk at index \<open>i\<close>, in the words of the specification:
  the block is at or above \<open>safeBoundary = currentChainHeight - CONFIRMATION_DEPTH\<close>, or its
  hash differs from the parent hash of the next block. The difference is the integer one:
  it is negative below height \<open>CONFIRMATION_DEPTH\<close>, where every block is too recent.
\<close>

definition safeBoundary :: "uint64 \<Rightarrow> int" where
  "safeBoundary currentChainHeight = uint currentChainHeight - uint ConfirmationNeeded"

definition stopsAt :: "uint64 \<Rightarrow> Block list \<Rightarrow> nat \<Rightarrow> bool" where
  "stopsAt currentChainHeight b i =
     (uint (Number (b ! i)) \<ge> safeBoundary currentChainHeight
      \<or> Hash (b ! i) \<noteq> ParentHash (b ! (i + 1)))"

text \<open>The blocks a pass hands to \<^verbatim>\<open>ConfirmBlocks\<close>: none when it does not call it.\<close>

definition promoted :: "passOut \<Rightarrow> Block list" where
  "promoted out = (case confirmCall out of None \<Rightarrow> [] | Some bs \<Rightarrow> bs)"

text \<open>
  Scenario C of the specification: blocks 10, 11 and 12, where block 12 names the hash of
  block 10 as its parent; and two repositories, one whose \<^verbatim>\<open>ConfirmBlocks\<close> succeeds and
  one whose \<^verbatim>\<open>ConfirmBlocks\<close> fails.
\<close>

definition scenarioC :: "Block list" where
  "scenarioC =
     [\<lparr>Number = 10, Hash = ''h10'', Time = 0, ParentHash = ''p9'', Transactions = [], Confirmed = False\<rparr>,
      \<lparr>Number = 11, Hash = ''h11'', Time = 0, ParentHash = ''h10'', Transactions = [], Confirmed = False\<rparr>,
      \<lparr>Number = 12, Hash = ''h12'', Time = 0, ParentHash = ''h10'', Transactions = [], Confirmed = False\<rparr>]"

text \<open>Blocks 10, 11 and 12, each naming the hash of the one before as its parent.\<close>

definition linked :: "Block list" where
  "linked =
     [\<lparr>Number = 10, Hash = ''h10'', Time = 0, ParentHash = ''p9'', Transactions = [], Confirmed = False\<rparr>,
      \<lparr>Number = 11, Hash = ''h11'', Time = 0, ParentHash = ''h10'', Transactions = [], Confirmed = False\<rparr>,
      \<lparr>Number = 12, Hash = ''h12'', Time = 0, ParentHash = ''h11'', Transactions = [], Confirmed = False\<rparr>]"

definition confirmOk :: "Block list \<Rightarrow> error option" where
  "confirmOk bs = None"


section \<open>Fetch Worker Pool\<close>

text \<open>
  What the program reads of the block returned by \<^verbatim>\<open>client.GetBlockByNumber\<close>: its
  number and time, and the \<^verbatim>\<open>String()\<close> renderings of its hash, of its parent hash and
  of the hashes of its transactions, in the block's order.
\<close>

record RawBlock =
  rawNumber :: uint64
  rawHash :: string
  rawTime :: uint64
  rawParentHash :: string
  rawTransactions :: "string list"

text \<open>
  \<^verbatim>\<open>fetchAndStoreBlock\<close>. The arguments are the repository's \<^verbatim>\<open>CreateBlock\<close>, the
  client's \<^verbatim>\<open>GetBlockByNumber\<close> and the block number; the result is the returned error
  and the block handed to \<^verbatim>\<open>CreateBlock\<close>, if it is called. After a successful fetch the
  variable \<open>err\<close> is \<^verbatim>\<open>nil\<close>; the result of \<^verbatim>\<open>CreateBlock\<close> is assigned to the blank
  identifier (\<^verbatim>\<open>_ = idx.repo.CreateBlock(blockModel)\<close>), and the test that follows reads
  \<open>err\<close>. A new \<^verbatim>\<open>Block\<close> has \<open>Confirmed\<close> at Go's zero value.
\<close>

definition fetchAndStoreBlock ::
    "(Block \<Rightarrow> error option) \<Rightarrow> (uint64 \<Rightarrow> error + RawBlock) \<Rightarrow> uint64 \<Rightarrow> error option \<times> Block option" where
  "fetchAndStoreBlock createBlock getBlockByNumber number =
     (case getBlockByNumber number of
        Inl err \<Rightarrow> (Some (Wrap ''[FastWorker] failed to get block'' err), None)
      | Inr blockRaw \<Rightarrow>
          (let err = (None :: error option);
               hashes = rawTransactions blockRaw;
               blockModel = \<lparr>Number = rawNumber blockRaw, Hash = rawHash blockRaw,
                             Time = rawTime blockRaw, ParentHash = rawParentHash blockRaw,
                             Transactions = hashes, Confirmed = False\<rparr>;
               discarded = createBlock blockModel
           in if err \<noteq> None then (err, Some blockModel) else (None, Some blockModel)))"

text \<open>
  The loop of \<^verbatim>\<open>FastWorker\<close>, run over the cases its \<^verbatim>\<open>select\<close> takes: a number
  received from the job queue (with the client and the repository as they answer for it),
  the job queue found closed, or the cancellation of the context.
\<close>

datatype fwEvent =
    Job uint64 "uint64 \<Rightarrow> error + RawBlock" "Block \<Rightarrow> error option"
  | JobsClosed
  | FwCtxDone

record fwState =
  fwErrors :: "error list"
  fwCreated :: "Block list"
  fwReturned :: bool

fun fastLoop :: "fwEvent list \<Rightarrow> fwState \<Rightarrow> fwState" where
  "fastLoop [] s = s"
| "fastLoop (JobsClosed # evs) s = s\<lparr>fwReturned := True\<rparr>"
| "fastLoop (FwCtxDone # evs) s = s\<lparr>fwReturned := True\<rparr>"
| "fastLoop (Job number getBlockByNumber createBlock # evs) s =
     (case fetchAndStoreBlock createBlock getBlockByNumber number of
        (err, created) \<Rightarrow>
          fastLoop evs
            (s\<lparr>fwErrors := fwErrors s @
                   (case err of None \<Rightarrow> []
                    | Some e \<Rightarrow> [Wrap ''[FastWorker] failed to fetch block and store'' e]),
               fwCreated := fwCreated s @ (case created of None \<Rightarrow> [] | Some b \<Rightarrow> [b])\<rparr>))"

definition FastWorker :: "error option \<Rightarrow> fwEvent list \<Rightarrow> fwState" where
  "FastWorker newClient evs =
     (case newClient of
        Some err \<Rightarrow>
          \<lparr>fwErrors = [Wrap ''[FastWorker] failed to create Client'' err],
           fwCreated = [], fwReturned = True\<rparr>
      | None \<Rightarrow> fastLoop evs \<lparr>fwErrors = [], fwCreated = [], fwReturned = False\<rparr>)"

text \<open>
  A chain node that answers every number with block 7, and a repository whose
  \<^verbatim>\<open>CreateBlock\<close> fails with the error of \<^verbatim>\<open>SQLStore.CreateBlock\<close>.
\<close>

definition block7 :: RawBlock where
  "block7 = \<lparr>rawNumber = 7, rawHash = ''h7'', rawTime = 1600000000, rawParentHash = ''h6'',
             rawTransactions = [''t1'', ''t2'']\<rparr>"

definition chain7 :: "uint64 \<Rightarrow> error + RawBlock" where
  "chain7 n = Inr block7"

definition createFails :: "Block \<Rightarrow> error option" where
  "createFails b = Some (Ext ''failed to create MySQL record'')"

section \<open>Transactions on demand\<close>

record Log =
  logIndex :: uint64
  logData :: string

text \<open>The \<^verbatim>\<open>Transaction\<close> struct; its fields carry the prefix \<open>tx\<close> here.\<close>

record Transaction =
  txHash :: string
  txFrom :: string
  txTo :: string
  txNonce :: uint64
  txData :: string
  txValue :: uint64
  txLogs :: "Log list"
  txBlockHash :: string

text \<open>
  What the program reads of the results of the client's \<^verbatim>\<open>GetTransactionByHash\<close> and
  \<^verbatim>\<open>GetTransactionReceipt\<close>. Of a log of the receipt it reads the index and
  \<^verbatim>\<open>common.BytesToHash(l.Data).String()\<close>, carried here as \<open>rlData\<close>; of the receipt's
  block hash it reads \<^verbatim>\<open>String()\<close>.
\<close>

record TxRaw =
  rawFrom :: string
  rawTo :: string
  rawNonce :: uint64
  rawData :: string
  rawValue :: uint64

record RawLog =
  rlIndex :: uint64
  rlData :: string

record Receipt =
  rcLogs :: "RawLog list"
  rcBlockHash :: string

record Client =
  GetTransactionByHash :: "string \<Rightarrow> error + TxRaw"
  GetTransactionReceipt :: "string \<Rightarrow> error + Receipt"

text \<open>The calls made to the chain node in the course of an operation.\<close>

datatype chainCall = TransactionByHash string | TransactionReceipt string

text \<open>
  The database behind \<^verbatim>\<open>SQLStore\<close>, which the program reaches through gorm: the rows of
  the transactions table by their primary key, and \<open>fault\<close>, the error with which the
  database answers every statement while it is unavailable. \<open>dbFirst\<close> is
  \<^verbatim>\<open>db.Where("hash = ?", hash).First(tx)\<close>, \<open>dbCreate\<close> is \<^verbatim>\<open>db.Create(transaction)\<close>,
  which refuses a second row with the same primary key.
\<close>

record DB =
  txRows :: "string \<rightharpoonup> Transaction"
  fault :: "error option"

definition dbFirst :: "DB \<Rightarrow> string \<Rightarrow> error + Transaction" where
  "dbFirst db hash =
     (case fault db of
        Some e \<Rightarrow> Inl e
      | None \<Rightarrow> (case txRows db hash of None \<Rightarrow> Inl ErrRecordNotFound | Some tx \<Rightarrow> Inr tx))"

definition dbCreate :: "DB \<Rightarrow> Transaction \<Rightarrow> error option \<times> DB" where
  "dbCreate db t =
     (case fault db of
        Some e \<Rightarrow> (Some e, db)
      | None \<Rightarrow>
          (case txRows db (txHash t) of
             Some old \<Rightarrow> (Some (Ext ''duplicate entry for key PRIMARY''), db)
           | None \<Rightarrow> (None, db\<lparr>txRows := (txRows db)(txHash t \<mapsto> t)\<rparr>)))"

text \<open>\<^verbatim>\<open>SQLStore.FindTransaction\<close> and \<^verbatim>\<open>SQLStore.CreateTransaction\<close>.\<close>

definition FindTransaction :: "DB \<Rightarrow> string \<Rightarrow> error + Transaction option" where
  "FindTransaction s hash =
     (case dbFirst s hash of
        Inl e \<Rightarrow> if e = ErrRecordNotFound then Inr None
                 else Inl (Wrap ''failed to get transaction'' e)
      | Inr tx \<Rightarrow> Inr (Some tx))"

definition CreateTransaction :: "DB \<Rightarrow> Transaction \<Rightarrow> error option \<times> DB" where
  "CreateTransaction s transaction = dbCreate s transaction"

text \<open>
  The part of the \<^verbatim>\<open>Repository\<close> interface that \<^verbatim>\<open>GetTransaction\<close> uses, over a store
  of type \<open>'r\<close>, and \<^verbatim>\<open>SQLStore\<close> as an implementation of it.
\<close>

record 'r Repository =
  repoFindTransaction :: "'r \<Rightarrow> string \<Rightarrow> error + Transaction option"
  repoCreateTransaction :: "'r \<Rightarrow> Transaction \<Rightarrow> error option \<times> 'r"

definition SQLStore :: "DB Repository" where
  "SQLStore = \<lparr>repoFindTransaction = FindTransaction, repoCreateTransaction = CreateTransaction\<rparr>"

text \<open>
  \<^verbatim>\<open>Indexer.GetTransaction\<close>. The result is the returned pair (an error, or the
  transaction, which is \<^verbatim>\<open>nil\<close> only in the error case), the store afterwards, and the
  calls made to the chain node.
\<close>

definition GetTransaction ::
    "'r Repository \<Rightarrow> Client \<Rightarrow> 'r \<Rightarrow> string \<Rightarrow> (error + Transaction) \<times> 'r \<times> chainCall list" where
  "GetTransaction repo ethClient r hash =
     (case repoFindTransaction repo r hash of
        Inl err \<Rightarrow> (Inl (Wrap ''failed to FindTransaction'' err), r, [])
      | Inr (Some tx) \<Rightarrow> (Inr tx, r, [])
      | Inr None \<Rightarrow>
          (case GetTransactionByHash ethClient hash of
             Inl err \<Rightarrow>
               (Inl (Wrap ''failed to get transaction from chain'' err), r, [TransactionByHash hash])
           | Inr tx \<Rightarrow>
               (case GetTransactionReceipt ethClient hash of
                  Inl err \<Rightarrow>
                    (Inl (Wrap ''failed to get transaction receipt from chain'' err), r,
                     [TransactionByHash hash, TransactionReceipt hash])
                | Inr txReceipt \<Rightarrow>
                    (let logs = map (\<lambda>l. \<lparr>logIndex = rlIndex l, logData = rlData l\<rparr>) (rcLogs txReceipt);
                         t = \<lparr>txHash = hash, txFrom = rawFrom tx, txTo = rawTo tx,
                              txNonce = rawNonce tx, txData = rawData tx, txValue = rawValue tx,
                              txLogs = logs, txBlockHash = rcBlockHash txReceipt\<rparr>
                     in case repoCreateTransaction repo r t of
                          (Some err, r') \<Rightarrow>
                            (Inl (Wrap ''failed to store transaction to repo'' err), r',
                             [TransactionByHash hash, TransactionReceipt hash])
                        | (None, r') \<Rightarrow>
                            (Inr t, r', [TransactionByHash hash, TransactionReceipt hash])))))"

text \<open>The transaction that \<^verbatim>\<open>GetTransaction\<close> assembles from a live fetch.\<close>

definition assembled :: "string \<Rightarrow> TxRaw \<Rightarrow> Receipt \<Rightarrow> Transaction" where
  "assembled hash tx txReceipt =
     \<lparr>txHash = hash, txFrom = rawFrom tx, txTo = rawTo tx, txNonce = rawNonce tx,
      txData = rawData tx, txValue = rawValue tx,
      txLogs = map (\<lambda>l. \<lparr>logIndex = rlIndex l, logData = rlData l\<rparr>) (rcLogs txReceipt),
      txBlockHash = rcBlockHash txReceipt\<rparr>"

text \<open>An empty, available database and a chain node that knows one transaction.\<close>

definition emptyDB :: DB where
  "emptyDB = \<lparr>txRows = Map.empty, fault = None\<rparr>"

definition tx1 :: TxRaw where
  "tx1 = \<lparr>rawFrom = ''0xa'', rawTo = ''0xb'', rawNonce = 3, rawData = ''0x'', rawValue = 5\<rparr>"

definition receipt1 :: Receipt where
  "receipt1 = \<lparr>rcLogs = [\<lparr>rlIndex = 0, rlData = ''0x01''\<rparr>], rcBlockHash = ''h7''\<rparr>"

definition node1 :: Client where
  "node1 = \<lparr>GetTransactionByHash = (\<lambda>h. if h = ''t1'' then Inr tx1 else Inl (Ext ''not found'')),
            GetTransactionReceipt = (\<lambda>h. if h = ''t1'' then Inr receipt1 else Inl (Ext ''not found''))\<rparr>"

section \<open>Query surface\<close>

text \<open>
  Go's \<^verbatim>\<open>strconv.Atoi\<close>, of the standard library: an optional sign, then one or more
  decimal digits and nothing else, or a syntax error; a value outside the 64-bit \<^verbatim>\<open>int\<close>
  is a range error.
\<close>

definition isDigit :: "char \<Rightarrow> bool" where
  "isDigit c = (48 \<le> (of_char c :: nat) \<and> (of_char c :: nat) \<le> 57)"

definition digitVal :: "char \<Rightarrow> int" where
  "digitVal c = int (of_char c) - 48"

definition Atoi :: "string \<Rightarrow> error + int" where
  "Atoi s =
     (let neg = (case s of [] \<Rightarrow> False | c # r \<Rightarrow> c = CHR ''-'');
          digits = (case s of [] \<Rightarrow> []
                    | c # r \<Rightarrow> if c = CHR ''-'' then r else if c = CHR ''+'' then r else s)
      in if digits = [] then Inl (ErrSyntax s)
         else if list_all isDigit digits then
           (let n = foldl (\<lambda>a c. a * 10 + digitVal c) 0 digits;
                v = (if neg then - n else n)
            in if v < - (2 ^ 63) then Inl (ErrRange s)
               else if 2 ^ 63 - 1 < v then Inl (ErrRange s)
               else Inr v)
         else Inl (ErrSyntax s))"

text \<open>
  gin's \<^verbatim>\<open>c.DefaultQuery(key, defaultValue)\<close>: the value of the query parameter when the
  request has it, the default otherwise. The request's parameter is \<open>None\<close> when absent.
\<close>

definition DefaultQuery :: "string option \<Rightarrow> string \<Rightarrow> string" where
  "DefaultQuery q defaultValue = (case q of None \<Rightarrow> defaultValue | Some v \<Rightarrow> v)"

text \<open>
  \<^verbatim>\<open>Indexer.GetNewBlocks\<close>, over the repository's \<^verbatim>\<open>GetNewBlocks\<close>: the blocks with
  their transactions removed, and the repository's error.
\<close>

definition GetNewBlocks :: "(int \<Rightarrow> Block list \<times> error option) \<Rightarrow> int \<Rightarrow> Block list \<times> error option" where
  "GetNewBlocks repoGetNewBlocks limit =
     (case repoGetNewBlocks limit of
        (blocks, err) \<Rightarrow> (map (\<lambda>b. b\<lparr>Transactions := []\<rparr>) blocks, err))"

text \<open>
  A response: the HTTP status and the JSON body, which is a message, the message
  \<^verbatim>\<open>fmt.Sprintf("error: %v", err)\<close> for an error, or a list of blocks.
\<close>

datatype payload = Message string | ErrorMessage error | BlocksBody "Block list"

record Response =
  status :: nat
  body :: payload

definition StatusOK :: nat where
  "StatusOK = 200"

definition StatusBadRequest :: nat where
  "StatusBadRequest = 400"

definition StatusInternalServerError :: nat where
  "StatusInternalServerError = 500"

text \<open>
  \<^verbatim>\<open>blocksHandler\<close>, for a request whose \<open>limit\<close> query parameter is \<open>limitQuery\<close>. The
  result is the response and the limits with which the indexer's \<^verbatim>\<open>GetNewBlocks\<close> was
  called.
\<close>

definition blocksHandler :: "(int \<Rightarrow> Block list \<times> error option) \<Rightarrow> string option \<Rightarrow> Response \<times> int list" where
  "blocksHandler repoGetNewBlocks limitQuery =
     (let limitRaw = DefaultQuery limitQuery ''1'';
          badRequest = \<lparr>status = StatusBadRequest,
                        body = Message ''limit must be a number and between 1 and 10''\<rparr>
      in case Atoi limitRaw of
           Inl err \<Rightarrow> (badRequest, [])
         | Inr limit \<Rightarrow>
             if limit < 1 then (badRequest, [])
             else if limit > 10 then (badRequest, [])
             else
               (case GetNewBlocks repoGetNewBlocks limit of
                  (blocks, Some err) \<Rightarrow>
                    (\<lparr>status = StatusInternalServerError, body = ErrorMessage err\<rparr>, [limit])
                | (blocks, None) \<Rightarrow>
                    (\<lparr>status = StatusOK, body = BlocksBody blocks\<rparr>, [limit])))"

text \<open>A repository without blocks.\<close>

definition noBlocks :: "int \<Rightarrow> Block list \<times> error option" where
  "noBlocks limit = ([], None)"

section \<open>Properties of the supervisor\<close>

lemma unat_succ_below:
  fixes i b :: uint64
  assumes "i \<le> b" and "b \<noteq> - 1"
  shows "unat (i + 1) = Suc (unat i)"
proof -
  have "i \<noteq> - 1" using assms by (metis word_order.extremum_uniqueI)
  thus ?thesis by (metis add.commute add_neg_numeral_special(8) add_right_cancel unatSuc)
qed

lemma range64_Cons:
  assumes "i \<le> b" and "b \<noteq> - 1"
  shows "range64 i b = i # range64 (i + 1) b"
proof -
  have lt: "unat i \<le> unat b" using assms by (simp add: word_le_nat_alt)
  have s: "unat (i + 1) = Suc (unat i)" using assms by (rule unat_succ_below)
  have "[unat i ..< Suc (unat b)] = unat i # [Suc (unat i) ..< Suc (unat b)]"
    using lt by (simp add: upt_conv_Cons)
  thus ?thesis by (simp add: range64_def s)
qed

lemma range64_Nil: "\<not> i \<le> b \<Longrightarrow> range64 i b = []"
  by (simp add: range64_def word_le_nat_alt)

lemma length_range64: "length (range64 a b) = Suc (unat b) - unat a"
  by (simp add: range64_def del: upt_Suc)

text \<open>
  The loop returns when the chain height is not the largest \<^verbatim>\<open>uint64\<close> and no
  cancellation is seen, having started one sender for each number from \<open>i\<close> to the height.
\<close>

lemma addJobsLoop_run:
  assumes "currentLatest idx \<noteq> - 1"
    and "\<And>j. i \<le> j \<Longrightarrow> j \<le> currentLatest idx \<Longrightarrow> \<not> ctxDone j"
  shows "addJobsLoop ctxDone i idx =
           Some (Inr (idx\<lparr>senders := senders idx @ range64 i (currentLatest idx)\<rparr>))"
  using assms
proof (induction "Suc (unat (currentLatest idx)) - unat i" arbitrary: i idx)
  case 0
  hence "\<not> i \<le> currentLatest idx" by (simp add: word_le_nat_alt)
  thus ?case by (subst addJobsLoop.simps) (simp add: range64_Nil)
next
  case (Suc n)
  hence le: "i \<le> currentLatest idx" by (simp add: word_le_nat_alt)
  have s: "unat (i + 1) = Suc (unat i)" using le Suc.prems(1) by (rule unat_succ_below)
  have nd: "\<not> ctxDone i" using Suc.prems(2) le by simp
  let ?idx = "addJob i idx"
  have cl: "currentLatest ?idx = currentLatest idx" by (simp add: addJob_def)
  have m: "n = Suc (unat (currentLatest ?idx)) - unat (i + 1)" using Suc.hyps(2) s cl by simp
  have lei: "i \<le> i + 1" using s by (simp add: word_le_nat_alt)
  have "addJobsLoop ctxDone (i + 1) ?idx =
          Some (Inr (?idx\<lparr>senders := senders ?idx @ range64 (i + 1) (currentLatest ?idx)\<rparr>))"
  proof (rule Suc.hyps(1) [OF m])
    show "currentLatest ?idx \<noteq> - 1" using Suc.prems(1) cl by simp
  next
    fix j assume "i + 1 \<le> j" and "j \<le> currentLatest ?idx"
    thus "\<not> ctxDone j" using Suc.prems(2) [of j] lei cl by simp
  qed
  thus ?case
    by (subst addJobsLoop.simps) (simp add: le nd cl addJob_def range64_Cons [OF le Suc.prems(1)])
qed

lemma unat_nth_range64:
  assumes "k < length (range64 a b)"
  shows "unat (range64 a b ! k) = unat a + k"
proof -
  have kb: "unat a + k \<le> unat b" using assms by (simp add: range64_def del: upt_Suc)
  have "range64 a b ! k = word_of_nat ([unat a ..< Suc (unat b)] ! k)"
    using assms unfolding range64_def by (simp only: length_map nth_map)
  also have "[unat a ..< Suc (unat b)] ! k = unat a + k"
    using kb by (simp only: nth_upt)
  finally have "range64 a b ! k = word_of_nat (unat a + k)" .
  moreover have "unat (word_of_nat (unat a + k) :: uint64) = unat a + k"
    using kb by (rule le_unat_uoi)
  ultimately show ?thesis by simp
qed

lemma set_range64: "set (range64 a b) = {a..b}"
proof (rule set_eqI)
  fix x
  show "x \<in> set (range64 a b) \<longleftrightarrow> x \<in> {a..b}"
  proof
    assume "x \<in> set (range64 a b)"
    then obtain k where k: "k < length (range64 a b)" "x = range64 a b ! k"
      by (auto simp: in_set_conv_nth)
    have "unat x = unat a + k" using k unat_nth_range64 by simp
    moreover have "unat a + k \<le> unat b" using k(1) by (simp add: range64_def del: upt_Suc)
    ultimately show "x \<in> {a..b}" by (simp add: word_le_nat_alt)
  next
    assume "x \<in> {a..b}"
    hence "unat x \<in> set [unat a ..< Suc (unat b)]" by (auto simp: word_le_nat_alt)
    hence "word_of_nat (unat x) \<in> set (range64 a b)"
      unfolding range64_def by (simp only: set_map image_eqI)
    thus "x \<in> set (range64 a b)" by simp
  qed
qed

lemma sorted_range64: "sorted_wrt (<) (range64 a b)"
  unfolding sorted_wrt_iff_nth_less
  by (simp add: word_less_nat_alt unat_nth_range64)

lemma makeRoutineJobs_run:
  assumes "jobs idx = []" and "currentLatest idx \<noteq> - 1" and "\<And>j. \<not> ctxDone j"
  shows "makeRoutineJobs ctxDone (Inr repoLatest) idx =
           Some (Inr (idx\<lparr>senders := senders idx @
             range64 (if repoLatest = 0 then currentLatest idx - IndexLimit else repoLatest + 1)
                     (currentLatest idx)\<rparr>))"
  using assms by (simp add: makeRoutineJobs_def Let_def addJobsLoop_run)

lemma scheduled_range:
  assumes "jobs idx = []" and "currentLatest idx \<noteq> - 1" and "\<And>j. \<not> ctxDone j"
  shows "scheduled ctxDone (Inr repoLatest) idx =
           Some (range64 (if repoLatest = 0 then currentLatest idx - IndexLimit else repoLatest + 1)
                         (currentLatest idx))"
  using assms by (simp add: scheduled_def makeRoutineJobs_run enqueued_def)

lemma range64_451: "range64 451 500 = 451 # 452 # range64 453 500"
proof -
  have "range64 451 500 = 451 # range64 (451 + 1) 500" by (rule range64_Cons) simp_all
  moreover have "range64 452 500 = 452 # range64 (452 + 1) 500" by (rule range64_Cons) simp_all
  ultimately show ?thesis by simp
qed

lemma afterPass_run:
  "makeRoutineJobs background (Inr 450) (NewIndexer\<lparr>currentLatest := 500\<rparr>) = Some (Inr afterPass)"
  using makeRoutineJobs_run [of "NewIndexer\<lparr>currentLatest := 500\<rparr>" background 450]
  by (simp add: NewIndexer_def background_def afterPass_def)

text \<open>
  C1, as stated, fails, in three ways. With an empty store the claim starts the range at
  \<open>max (storeLatest + 1) (chainHeight - INDEX_LIMIT)\<close>; the code starts it at
  \<open>currentLatest - IndexLimit\<close>, with no maximum taken: at chain height 100 it hands the
  numbers 0 to 100 to \<open>addJob\<close>, where the claim's formula gives 1 to 100. At chain height
  50 the \<^verbatim>\<open>uint64\<close> difference wraps around and the code hands over nothing, where the
  claim's formula gives 1 to 50. And the numbers are not put on the queue in ascending
  order: after the pass at height 500 over a store at 450, the sender of 452 may complete
  its send while 451 is still waiting.
\<close>

theorem makeRoutineJobs_bootstrap_counterexample:
  "scheduled background (Inr 0) (NewIndexer\<lparr>currentLatest := 100\<rparr>) = Some (range64 0 100)
   \<and> range64 0 100 \<noteq> range64 (max (0 + 1) (100 - IndexLimit)) 100
   \<and> scheduled background (Inr 0) (NewIndexer\<lparr>currentLatest := 50\<rparr>) = Some []
   \<and> makeRoutineJobs background (Inr 450) (NewIndexer\<lparr>currentLatest := 500\<rparr>) = Some (Inr afterPass)
   \<and> sched afterPass outOfOrder
   \<and> jobs outOfOrder = [452] \<and> 451 \<in> set (senders outOfOrder)"
proof -
  have "length (range64 0 100) \<noteq> length (range64 (max (0 + 1) (100 - IndexLimit)) 100)"
    by (simp add: length_range64 IndexLimit_def)
  hence a: "range64 0 100 \<noteq> range64 (max (0 + 1) (100 - IndexLimit)) 100" by metis
  have b: "scheduled background (Inr 0) (NewIndexer\<lparr>currentLatest := 100\<rparr>) = Some (range64 0 100)"
    using scheduled_range [of "NewIndexer\<lparr>currentLatest := 100\<rparr>" background 0]
    by (simp add: NewIndexer_def IndexLimit_def background_def)
  have "\<not> ((50::uint64) - IndexLimit \<le> 50)" by (simp add: IndexLimit_def)
  hence "range64 (50 - IndexLimit) 50 = []" by (rule range64_Nil)
  hence c: "scheduled background (Inr 0) (NewIndexer\<lparr>currentLatest := 50\<rparr>) = Some []"
    using scheduled_range [of "NewIndexer\<lparr>currentLatest := 50\<rparr>" background 0]
    by (simp add: NewIndexer_def background_def)
  have "sched afterPass (afterPass\<lparr>jobs := jobs afterPass @ [452],
                                      senders := remove1 452 (senders afterPass)\<rparr>)"
    by (rule sched.deliver) (simp_all add: afterPass_def NewIndexer_def jobsCap_def range64_451)
  hence d: "sched afterPass outOfOrder"
    by (simp add: outOfOrder_def afterPass_def NewIndexer_def)
  have e: "jobs outOfOrder = [452] \<and> 451 \<in> set (senders outOfOrder)"
    by (simp add: outOfOrder_def afterPass_def range64_451)
  show ?thesis using a b c d e afterPass_run by simp
qed

text \<open>
  C1, amended. A discovery pass that finds the job queue empty, reads the store's latest
  number \<open>repoLatest\<close> without error and is not cancelled hands to \<open>addJob\<close> exactly the
  numbers from \<open>from\<close> to the chain height, in ascending order, where \<open>from\<close> is
  \<open>currentLatest - IndexLimit\<close> when the store is empty (\<open>repoLatest = 0\<close>) and the chain
  height is at least \<open>IndexLimit\<close>, and \<open>repoLatest + 1\<close> when the store is not empty.
  (Nothing is said of an empty store below height \<open>IndexLimit\<close>.) The chain height is
  below the largest \<^verbatim>\<open>uint64\<close>, since otherwise the loop does not end.
\<close>

theorem makeRoutineJobs_range:
  assumes "jobs idx = []"
    and "currentLatest idx \<noteq> - 1"
    and "\<And>j. \<not> ctxDone j"
    and "repoLatest = 0 \<Longrightarrow> IndexLimit \<le> currentLatest idx"
  shows "scheduled ctxDone (Inr repoLatest) idx =
           Some (range64 (if repoLatest = 0 then currentLatest idx - IndexLimit else repoLatest + 1)
                         (currentLatest idx))
         \<and> sorted_wrt (<) (range64 (if repoLatest = 0 then currentLatest idx - IndexLimit else repoLatest + 1)
                         (currentLatest idx))
         \<and> set (range64 (if repoLatest = 0 then currentLatest idx - IndexLimit else repoLatest + 1)
                         (currentLatest idx))
             = {(if repoLatest = 0 then currentLatest idx - IndexLimit else repoLatest + 1) .. currentLatest idx}"
  using assms(1-3) by (simp only: scheduled_range sorted_range64 set_range64 simp_thms)

text \<open>
  Scenarios A and B of the specification: an empty store at chain height 500 gives 400 to
  500, and a store whose latest number is 450 gives 451 to 500.
\<close>

theorem makeRoutineJobs_range_witness:
  "scheduled background (Inr 0) (NewIndexer\<lparr>currentLatest := 500\<rparr>) = Some (range64 400 500)
   \<and> set (range64 400 500) = {400 .. 500}
   \<and> scheduled background (Inr 450) (NewIndexer\<lparr>currentLatest := 500\<rparr>) = Some (range64 451 500)
   \<and> set (range64 451 500) = {451 .. 500}"
  using makeRoutineJobs_range [of "NewIndexer\<lparr>currentLatest := 500\<rparr>" background 0]
    makeRoutineJobs_range [of "NewIndexer\<lparr>currentLatest := 500\<rparr>" background 450]
  by (simp add: NewIndexer_def IndexLimit_def background_def)

text \<open>A successful refresh stores the height and returns.\<close>

lemma updateLatestNumber_success:
  "updateLatestNumber (Inr latest) idx = Inr (idx\<lparr>currentLatest := latest\<rparr>)"
  by (simp add: updateLatestNumber_def)

text \<open>
  C6: the code does not do what the claim says. When \<^verbatim>\<open>GetBlockNumber\<close> fails,
  \<open>updateLatestNumber\<close> starts the send of the error and never returns: the caller is the
  only receiver of the error channel. The height is indeed untouched, but the error is
  never received, and the supervisor, which was to carry on with the old height, runs no
  further discovery pass.
\<close>

theorem updateLatestNumber_failure_blocks:
  "updateLatestNumber (Inl err) idx =
     Inl (BlockedSending (Wrap ''failed to get latest number on chain'' err) idx)"
  by (simp add: updateLatestNumber_def)

section \<open>Properties of the job queue\<close>

lemma sched_cap:
  assumes "sched s t" and "length (jobs s) \<le> jobsCap"
  shows "length (jobs t) \<le> jobsCap"
  using assms by (induction rule: sched.induct) auto

lemma sched_star_cap:
  assumes "sched\<^sup>*\<^sup>* s t" and "length (jobs s) \<le> jobsCap"
  shows "length (jobs t) \<le> jobsCap"
  using assms by (induction rule: rtranclp_induct) (auto intro: sched_cap)

text \<open>
  C4, as stated, fails. \<open>addJob\<close> does not send: on a full queue it returns at once, having
  started a sender of its own for the number; and a bootstrap pass at chain height 500
  returns with 101 senders started and nothing in the queue of capacity 1.
\<close>

theorem addJob_counterexample:
  "addJob 452 (NewIndexer\<lparr>jobs := [451]\<rparr>) = NewIndexer\<lparr>jobs := [451], senders := [452]\<rparr>
   \<and> length (jobs (NewIndexer\<lparr>jobs := [451]\<rparr>)) = jobsCap
   \<and> makeRoutineJobs background (Inr 0) (NewIndexer\<lparr>currentLatest := 500\<rparr>) =
       Some (Inr ((NewIndexer\<lparr>currentLatest := 500\<rparr>)\<lparr>senders := range64 400 500\<rparr>))
   \<and> length (range64 400 500) = 101 \<and> jobsCap = 1"
  using makeRoutineJobs_run [of "NewIndexer\<lparr>currentLatest := 500\<rparr>" background 0]
  by (simp add: addJob_def NewIndexer_def jobsCap_def length_range64
        background_def IndexLimit_def)

text \<open>
  C4, amended. \<open>addJob\<close> leaves the queue as it is and starts one sender per number; a
  discovery pass returns with the queue still empty and as many new senders as numbers it
  scheduled; and however the senders and the workers are scheduled afterwards, the queue
  never holds more than its capacity.
\<close>

theorem makeRoutineJobs_spawns_senders:
  assumes "jobs idx = []" and "currentLatest idx \<noteq> - 1" and "\<And>j. \<not> ctxDone j"
  shows "jobs (addJob n s) = jobs s \<and> senders (addJob n s) = senders s @ [n]
       \<and> (\<exists>idx'. makeRoutineJobs ctxDone (Inr repoLatest) idx = Some (Inr idx')
              \<and> jobs idx' = []
              \<and> length (senders idx') = length (senders idx) + length (enqueued idx idx')
              \<and> (\<forall>t. sched\<^sup>*\<^sup>* idx' t \<longrightarrow> length (jobs t) \<le> jobsCap))"
proof -
  let ?idx' = "idx\<lparr>senders := senders idx @
             range64 (if repoLatest = 0 then currentLatest idx - IndexLimit else repoLatest + 1)
                     (currentLatest idx)\<rparr>"
  have r: "makeRoutineJobs ctxDone (Inr repoLatest) idx = Some (Inr ?idx')"
    using assms by (rule makeRoutineJobs_run)
  have j: "jobs ?idx' = []" using assms(1) by simp
  have "\<forall>t. sched\<^sup>*\<^sup>* ?idx' t \<longrightarrow> length (jobs t) \<le> jobsCap"
    using j sched_star_cap [of ?idx'] by simp
  thus ?thesis using r j by (simp add: addJob_def enqueued_def)
qed

theorem makeRoutineJobs_spawns_senders_witness:
  "\<exists>idx'. makeRoutineJobs background (Inr 450) (NewIndexer\<lparr>currentLatest := 500\<rparr>) = Some (Inr idx')
      \<and> jobs idx' = []
      \<and> length (senders idx') = 0 + length (enqueued (NewIndexer\<lparr>currentLatest := 500\<rparr>) idx')
      \<and> length (senders idx') = 50"
proof -
  have "makeRoutineJobs background (Inr 450) (NewIndexer\<lparr>currentLatest := 500\<rparr>) =
       Some (Inr ((NewIndexer\<lparr>currentLatest := 500\<rparr>)\<lparr>senders := range64 451 500\<rparr>))"
    using makeRoutineJobs_run [of "NewIndexer\<lparr>currentLatest := 500\<rparr>" background 450]
    by (simp add: NewIndexer_def background_def)
  thus ?thesis
    using makeRoutineJobs_spawns_senders [of "NewIndexer\<lparr>currentLatest := 500\<rparr>" background 0 NewIndexer 450]
    by (simp add: NewIndexer_def background_def length_range64)
qed

lemma sched_currentLatest:
  assumes "sched s t"
  shows "currentLatest t = currentLatest s"
  using assms by (induction rule: sched.induct) simp_all

lemma sched_star_currentLatest:
  assumes "sched\<^sup>*\<^sup>* s t"
  shows "currentLatest t = currentLatest s"
  using assms by (induction rule: rtranclp_induct) (simp_all add: sched_currentLatest)

lemma makeRoutineJobs_nonempty:
  assumes "jobs idx \<noteq> []"
  shows "makeRoutineJobs ctxDone r idx = Some (Inr idx)"
  using assms by (simp add: makeRoutineJobs_def)

lemma afterDelivery_step: "sched afterPass afterDelivery"
proof -
  have "sched afterPass (afterPass\<lparr>jobs := jobs afterPass @ [451],
                                      senders := remove1 451 (senders afterPass)\<rparr>)"
    by (rule sched.deliver) (simp_all add: afterPass_def NewIndexer_def jobsCap_def range64_451)
  thus ?thesis by (simp add: afterDelivery_def afterPass_def NewIndexer_def)
qed

text \<open>
  C8, as stated, fails. At chain height 500 over a store at 450 the first call schedules
  451 to 500. Then the sender of 451 completes its send; no worker takes anything, nothing
  is fetched, the store and the height are as they were. The second call finds the queue
  non-empty and schedules nothing, which is not the range of the first call.
\<close>

theorem makeRoutineJobs_twice_counterexample:
  "makeRoutineJobs background (Inr 450) (NewIndexer\<lparr>currentLatest := 500\<rparr>) = Some (Inr afterPass)
   \<and> scheduled background (Inr 450) (NewIndexer\<lparr>currentLatest := 500\<rparr>) = Some (range64 451 500)
   \<and> sched afterPass afterDelivery
   \<and> jobs afterDelivery = [451]
   \<and> scheduled background (Inr 450) afterDelivery = Some []
   \<and> range64 451 500 \<noteq> []"
proof -
  have a: "scheduled background (Inr 450) (NewIndexer\<lparr>currentLatest := 500\<rparr>) = Some (range64 451 500)"
    using scheduled_range [of "NewIndexer\<lparr>currentLatest := 500\<rparr>" background 450]
    by (simp add: NewIndexer_def background_def)
  have j: "jobs afterDelivery = [451]" by (simp add: afterDelivery_def)
  hence "makeRoutineJobs background (Inr 450) afterDelivery = Some (Inr afterDelivery)"
    by (simp add: makeRoutineJobs_nonempty)
  hence b: "scheduled background (Inr 450) afterDelivery = Some []"
    by (simp add: scheduled_def enqueued_def)
  have c: "range64 451 500 \<noteq> []" by (simp add: range64_451)
  show ?thesis using afterPass_run a afterDelivery_step j b c by simp
qed

text \<open>
  C8, amended. A call of \<open>makeRoutineJobs\<close> that finds the queue non-empty changes nothing.
  After a call that found the queue empty and returned, however the senders and the workers
  are scheduled, a second call with the same answer from the store and the same chain
  height schedules the same numbers as the first if it finds the queue empty (no sender
  has delivered yet, or every delivered number has been taken), and schedules nothing if
  it finds the queue non-empty (as after a delivery that no worker has taken).
\<close>

theorem makeRoutineJobs_twice:
  assumes "\<And>j. \<not> ctxDone j" and "currentLatest idx \<noteq> - 1"
  shows "(jobs idx \<noteq> [] \<longrightarrow> makeRoutineJobs ctxDone r idx = Some (Inr idx))
       \<and> (jobs idx = [] \<longrightarrow>
            (\<exists>idx1. makeRoutineJobs ctxDone (Inr repoLatest) idx = Some (Inr idx1)
               \<and> (\<forall>idx2. sched\<^sup>*\<^sup>* idx1 idx2 \<longrightarrow>
                     scheduled ctxDone (Inr repoLatest) idx2 =
                       Some (if jobs idx2 = [] then enqueued idx idx1 else []))))"
proof (intro conjI impI)
  assume "jobs idx \<noteq> []"
  thus "makeRoutineJobs ctxDone r idx = Some (Inr idx)" by (rule makeRoutineJobs_nonempty)
next
  assume empty: "jobs idx = []"
  let ?ns = "range64 (if repoLatest = 0 then currentLatest idx - IndexLimit else repoLatest + 1)
               (currentLatest idx)"
  let ?idx1 = "idx\<lparr>senders := senders idx @ ?ns\<rparr>"
  have 1: "makeRoutineJobs ctxDone (Inr repoLatest) idx = Some (Inr ?idx1)"
    using empty assms(2,1) by (rule makeRoutineJobs_run)
  have first: "enqueued idx ?idx1 = ?ns" by (simp add: enqueued_def)
  have "\<forall>idx2. sched\<^sup>*\<^sup>* ?idx1 idx2 \<longrightarrow>
          scheduled ctxDone (Inr repoLatest) idx2 =
            Some (if jobs idx2 = [] then enqueued idx ?idx1 else [])"
  proof (intro allI impI)
    fix idx2 assume "sched\<^sup>*\<^sup>* ?idx1 idx2"
    hence cl: "currentLatest idx2 = currentLatest idx"
      using sched_star_currentLatest [of ?idx1 idx2] by simp
    show "scheduled ctxDone (Inr repoLatest) idx2 =
            Some (if jobs idx2 = [] then enqueued idx ?idx1 else [])"
    proof (cases "jobs idx2 = []")
      case True
      hence "scheduled ctxDone (Inr repoLatest) idx2 = Some ?ns"
        using scheduled_range [of idx2 ctxDone repoLatest] assms cl by simp
      thus ?thesis using True first by simp
    next
      case False
      hence "makeRoutineJobs ctxDone (Inr repoLatest) idx2 = Some (Inr idx2)"
        by (rule makeRoutineJobs_nonempty)
      thus ?thesis using False by (simp add: scheduled_def enqueued_def)
    qed
  qed
  thus "\<exists>idx1. makeRoutineJobs ctxDone (Inr repoLatest) idx = Some (Inr idx1)
               \<and> (\<forall>idx2. sched\<^sup>*\<^sup>* idx1 idx2 \<longrightarrow>
                     scheduled ctxDone (Inr repoLatest) idx2 =
                       Some (if jobs idx2 = [] then enqueued idx idx1 else []))"
    using 1 by blast
qed

text \<open>
  At chain height 500 over a store at 450: called again at once, the pass schedules 451 to
  500 a second time; called after the sender of 451 has delivered, it schedules nothing
  and returns the state as it found it.
\<close>

theorem makeRoutineJobs_twice_witness:
  "scheduled background (Inr 450) afterPass = Some (range64 451 500)
   \<and> scheduled background (Inr 450) afterDelivery = Some []
   \<and> makeRoutineJobs background (Inr 450) afterDelivery = Some (Inr afterDelivery)"
proof -
  let ?s = "NewIndexer\<lparr>currentLatest := 500\<rparr>"
  have bg: "\<And>j. \<not> background j" by (simp add: background_def)
  have s: "currentLatest ?s \<noteq> - 1" "jobs ?s = []" by (simp_all add: NewIndexer_def)
  have d: "currentLatest afterDelivery \<noteq> - 1" "jobs afterDelivery \<noteq> []"
    by (simp_all add: afterDelivery_def afterPass_def NewIndexer_def)
  note th = makeRoutineJobs_twice [of background ?s "Inr 450" 450, OF bg s(1)]
  from th s(2) obtain idx1 where 1:
      "makeRoutineJobs background (Inr 450) ?s = Some (Inr idx1)"
      "\<forall>idx2. sched\<^sup>*\<^sup>* idx1 idx2 \<longrightarrow>
          scheduled background (Inr 450) idx2 = Some (if jobs idx2 = [] then enqueued ?s idx1 else [])"
    by blast
  have i: "idx1 = afterPass" using 1(1) afterPass_run by simp
  have e: "enqueued ?s afterPass = range64 451 500"
    by (simp add: enqueued_def afterPass_def NewIndexer_def)
  have all: "\<And>idx2. sched\<^sup>*\<^sup>* afterPass idx2 \<Longrightarrow>
          scheduled background (Inr 450) idx2 = Some (if jobs idx2 = [] then range64 451 500 else [])"
    using 1(2) i e by metis
  have ja: "jobs afterPass = []" by (simp add: afterPass_def NewIndexer_def)
  have "sched\<^sup>*\<^sup>* afterPass afterPass" by (rule rtranclp.rtrancl_refl)
  hence a: "scheduled background (Inr 450) afterPass = Some (range64 451 500)"
    using all [of afterPass] ja by simp
  have "sched\<^sup>*\<^sup>* afterPass afterDelivery" using afterDelivery_step by (rule r_into_rtranclp)
  hence b: "scheduled background (Inr 450) afterDelivery = Some []"
    using all [of afterDelivery] d(2) by simp
  have c: "makeRoutineJobs background (Inr 450) afterDelivery = Some (Inr afterDelivery)"
    using makeRoutineJobs_twice [of background afterDelivery "Inr 450" 450, OF bg d(1)] d(2) by blast
  show ?thesis using a b c by simp
qed

section \<open>Properties of the confirmation monitor\<close>

lemma validateLoop_walk:
  assumes "i \<le> length blocks - 1"
    and "validatedBlocks = take i blocks"
    and "\<forall>j<i. \<not> (Number (blocks ! j) \<ge> word_of_int to \<or> Hash (blocks ! j) \<noteq> ParentHash (blocks ! (j + 1)))"
  shows "\<exists>k. i \<le> k \<and> k \<le> length blocks - 1
            \<and> validateLoop to blocks i validatedBlocks = take k blocks
            \<and> (\<forall>j<k. \<not> (Number (blocks ! j) \<ge> word_of_int to \<or> Hash (blocks ! j) \<noteq> ParentHash (blocks ! (j + 1))))
            \<and> (k < length blocks - 1 \<longrightarrow>
                  (Number (blocks ! k) \<ge> word_of_int to \<or> Hash (blocks ! k) \<noteq> ParentHash (blocks ! (k + 1))))"
  using assms
proof (induction to blocks i validatedBlocks rule: validateLoop.induct)
  case (1 to blocks i validatedBlocks)
  let ?stop = "\<lambda>j. Number (blocks ! j) \<ge> word_of_int to \<or> Hash (blocks ! j) \<noteq> ParentHash (blocks ! (j + 1))"
  show ?case
  proof (cases "i < length blocks - 1")
    case False
    hence "validateLoop to blocks i validatedBlocks = take i blocks"
      using "1.prems"(2) by (subst validateLoop.simps) simp
    thus ?thesis using False "1.prems" by (intro exI [of _ i]) simp
  next
    case inside: True
    show ?thesis
    proof (cases "?stop i")
      case True
      hence "validateLoop to blocks i validatedBlocks = take i blocks"
        using "1.prems"(2) inside by (subst validateLoop.simps) auto
      thus ?thesis using True "1.prems" by (intro exI [of _ i]) simp
    next
      case False
      have step: "validateLoop to blocks i validatedBlocks =
                    validateLoop to blocks (i + 1) (validatedBlocks @ [blocks ! i])"
        using False inside by (subst validateLoop.simps) auto
      have tk: "validatedBlocks @ [blocks ! i] = take (i + 1) blocks"
        using "1.prems"(2) inside by (simp add: take_Suc_conv_app_nth)
      have al: "\<forall>j<i + 1. \<not> ?stop j"
        using "1.prems"(3) False by (auto simp: less_Suc_eq)
      have "\<exists>k. i + 1 \<le> k \<and> k \<le> length blocks - 1
            \<and> validateLoop to blocks (i + 1) (validatedBlocks @ [blocks ! i]) = take k blocks
            \<and> (\<forall>j<k. \<not> ?stop j) \<and> (k < length blocks - 1 \<longrightarrow> ?stop k)"
        using "1.IH" [OF inside _ _ _ tk al] False inside by auto
      then obtain k where "i + 1 \<le> k" "k \<le> length blocks - 1"
        "validateLoop to blocks (i + 1) (validatedBlocks @ [blocks ! i]) = take k blocks"
        "\<forall>j<k. \<not> ?stop j" "k < length blocks - 1 \<longrightarrow> ?stop k" by blast
      thus ?thesis using step by (intro exI [of _ k]) simp
    qed
  qed
qed

lemma validateLoop_take:
  assumes "2 \<le> length blocks"
  shows "\<exists>k\<le>length blocks - 1. validateLoop to blocks 0 [] = take k blocks"
  using validateLoop_walk [of 0 blocks "[]" to] by auto

lemma confirmPass_call:
  assumes "2 \<le> length blocks"
  shows "confirmCall (confirmPass latest (Inr blocks) confirmBlocks) =
           Some (validateLoop (sint (latest - ConfirmationNeeded)) blocks 0 [])"
  using assms by (simp add: confirmPass_def Let_def split: option.split)

text \<open>
  From chain height \<open>ConfirmationNeeded\<close> on, the comparison of the code is the one of the
  specification: the \<^verbatim>\<open>uint64\<close> difference is the integer difference.
\<close>

lemma boundary_above_depth:
  assumes "ConfirmationNeeded \<le> latest"
  shows "((word_of_int (sint (latest - ConfirmationNeeded)) :: uint64) \<le> n)
           \<longleftrightarrow> safeBoundary latest \<le> uint n"
proof -
  have "uint (latest - ConfirmationNeeded) = uint latest - uint ConfirmationNeeded"
    using assms by (simp add: uint_sub_lem word_le_def)
  thus ?thesis by (simp add: safeBoundary_def word_le_def)
qed

text \<open>
  From chain height \<open>ConfirmationNeeded\<close> on, the pass walks as specified: with fewer than two
  unconfirmed blocks it does not call \<^verbatim>\<open>ConfirmBlocks\<close>; otherwise it calls it with
  \<open>take k blocks\<close>, where no index below \<open>k\<close> meets the stopping condition and \<open>k\<close> meets it
  unless the walk ran out of pairs.
\<close>

lemma confirmPass_walk:
  assumes "ConfirmationNeeded \<le> latest"
  shows "(length blocks < 2 \<longrightarrow> confirmCall (confirmPass latest (Inr blocks) confirmBlocks) = None)
   \<and> (2 \<le> length blocks \<longrightarrow>
        (\<exists>k\<le>length blocks - 1.
            confirmCall (confirmPass latest (Inr blocks) confirmBlocks) = Some (take k blocks)
          \<and> (\<forall>i<k. \<not> stopsAt latest blocks i)
          \<and> (k < length blocks - 1 \<longrightarrow> stopsAt latest blocks k)))"
proof (intro conjI impI)
  assume "length blocks < 2"
  thus "confirmCall (confirmPass latest (Inr blocks) confirmBlocks) = None"
    by (simp add: confirmPass_def)
next
  assume two: "2 \<le> length blocks"
  have call: "confirmCall (confirmPass latest (Inr blocks) confirmBlocks) =
          Some (validateLoop (sint (latest - ConfirmationNeeded)) blocks 0 [])"
    using two by (rule confirmPass_call)
  have "\<exists>k\<le>length blocks - 1.
           validateLoop (sint (latest - ConfirmationNeeded)) blocks 0 [] = take k blocks
         \<and> (\<forall>i<k. \<not> stopsAt latest blocks i)
         \<and> (k < length blocks - 1 \<longrightarrow> stopsAt latest blocks k)"
    using validateLoop_walk [of 0 blocks "[]" "sint (latest - ConfirmationNeeded)"]
    unfolding stopsAt_def boundary_above_depth [OF assms, symmetric] by auto
  thus "\<exists>k\<le>length blocks - 1.
            confirmCall (confirmPass latest (Inr blocks) confirmBlocks) = Some (take k blocks)
          \<and> (\<forall>i<k. \<not> stopsAt latest blocks i)
          \<and> (k < length blocks - 1 \<longrightarrow> stopsAt latest blocks k)"
    using call by auto
qed

text \<open>
  C2: the code does not do what the claim says below chain height \<open>ConfirmationNeeded\<close>.
  At height 0, the value of \<open>currentLatest\<close> until a refresh succeeds, the boundary of the
  claim is \<open>-10\<close>: block 10 is at or above it, the walk stops at once and nothing is
  promoted. In the code the \<^verbatim>\<open>uint64\<close> difference wraps around to \<open>2^64 - 10\<close>, no block
  reaches it, and of the linked blocks 10, 11 and 12 the pass promotes 10 and 11.
\<close>

theorem confirmPass_promotes_below_depth:
  "confirmCall (confirmPass (currentLatest NewIndexer) (Inr linked) confirmOk) = Some (take 2 linked)
   \<and> map Number (take 2 linked) = [10, 11]
   \<and> safeBoundary (currentLatest NewIndexer) = - 10
   \<and> stopsAt (currentLatest NewIndexer) linked 0"
proof -
  have "validateLoop (sint ((0::uint64) - ConfirmationNeeded)) linked 0 [] = take 2 linked"
    by (simp add: validateLoop.simps linked_def ConfirmationNeeded_def)
  hence "confirmCall (confirmPass (currentLatest NewIndexer) (Inr linked) confirmOk) = Some (take 2 linked)"
    by (simp add: confirmPass_def Let_def confirmOk_def NewIndexer_def) (simp add: linked_def)
  moreover have "map Number (take 2 linked) = [10, 11]" by (simp add: linked_def)
  moreover have "safeBoundary (currentLatest NewIndexer) = - 10"
    by (simp add: safeBoundary_def NewIndexer_def ConfirmationNeeded_def)
  moreover have "stopsAt (currentLatest NewIndexer) linked 0"
    by (simp add: stopsAt_def safeBoundary_def NewIndexer_def ConfirmationNeeded_def linked_def)
  ultimately show ?thesis by simp
qed

lemma scenarioC_eval:
  "validateLoop (sint ((21::uint64) - ConfirmationNeeded)) scenarioC 0 [] = take 1 scenarioC"
  "validateLoop (sint ((22::uint64) - ConfirmationNeeded)) scenarioC 0 [] = take 1 scenarioC"
  by (simp_all add: validateLoop.simps scenarioC_def ConfirmationNeeded_def)

text \<open>
  Scenario C, in both branches: with the boundary at 11 (chain height 21) the walk stops at
  block 11 for depth, with the boundary at 12 (chain height 22) it stops there for the
  discontinuity; either way only block 10 is promoted.
\<close>

lemma confirmPass_scenarioC:
  "confirmCall (confirmPass 21 (Inr scenarioC) confirmOk) = Some (take 1 scenarioC)
   \<and> confirmCall (confirmPass 22 (Inr scenarioC) confirmOk) = Some (take 1 scenarioC)
   \<and> stopsAt 21 scenarioC 1 \<and> stopsAt 22 scenarioC 1
   \<and> map Number (take 1 scenarioC) = [10]"
  by (simp add: confirmPass_def Let_def scenarioC_eval confirmOk_def)
     (simp add: scenarioC_def stopsAt_def safeBoundary_def ConfirmationNeeded_def)

text \<open>
  C9. The blocks a pass hands to \<^verbatim>\<open>ConfirmBlocks\<close> are a prefix of the unconfirmed list
  without its last element: fewer blocks than were read, taken from the front. So of a
  non-empty unconfirmed list the blocks not handed over are not empty and end with the
  highest-numbered unconfirmed block, whether the pass calls \<^verbatim>\<open>ConfirmBlocks\<close> or skips.
\<close>

theorem confirmPass_excludes_last:
  "(confirmCall (confirmPass latest (Inr blocks) confirmBlocks) = Some validated \<longrightarrow>
      length validated < length blocks \<and> validated = take (length validated) (butlast blocks))
   \<and> (blocks \<noteq> [] \<longrightarrow>
        drop (length (promoted (confirmPass latest (Inr blocks) confirmBlocks))) blocks \<noteq> []
      \<and> last (drop (length (promoted (confirmPass latest (Inr blocks) confirmBlocks))) blocks) =
          last blocks)"
proof (cases "length blocks < 2")
  case True
  hence "confirmCall (confirmPass latest (Inr blocks) confirmBlocks) = None"
    by (simp add: confirmPass_def)
  thus ?thesis by (simp add: promoted_def)
next
  case False
  hence two: "2 \<le> length blocks" by simp
  obtain k where k: "k \<le> length blocks - 1"
      "validateLoop (sint (latest - ConfirmationNeeded)) blocks 0 [] = take k blocks"
    using validateLoop_take [OF two] by auto
  have call: "confirmCall (confirmPass latest (Inr blocks) confirmBlocks) = Some (take k blocks)"
    using confirmPass_call [OF two, of latest confirmBlocks] k(2) by simp
  have len: "length (take k blocks) = k" using k(1) by simp
  have bl: "take k blocks = take k (butlast blocks)"
    using k(1) by (simp add: butlast_conv_take)
  have lt: "k < length blocks" using k(1) two by simp
  have first: "confirmCall (confirmPass latest (Inr blocks) confirmBlocks) = Some validated \<longrightarrow>
      length validated < length blocks \<and> validated = take (length validated) (butlast blocks)"
  proof
    assume "confirmCall (confirmPass latest (Inr blocks) confirmBlocks) = Some validated"
    hence v: "validated = take k blocks" using call by simp
    hence "length validated = k" using len by simp
    thus "length validated < length blocks \<and> validated = take (length validated) (butlast blocks)"
      using v bl lt by simp
  qed
  have "promoted (confirmPass latest (Inr blocks) confirmBlocks) = take k blocks"
    using call by (simp add: promoted_def)
  hence "length (promoted (confirmPass latest (Inr blocks) confirmBlocks)) = k"
    using len by simp
  hence second: "drop (length (promoted (confirmPass latest (Inr blocks) confirmBlocks))) blocks \<noteq> []
      \<and> last (drop (length (promoted (confirmPass latest (Inr blocks) confirmBlocks))) blocks) =
          last blocks"
    using lt by simp
  show ?thesis using first second by blast
qed

text \<open>
  In Scenario C only block 10 is handed over, and blocks 11 and 12 are left; a pass that
  reads block 10 alone hands over nothing.
\<close>

theorem confirmPass_excludes_last_witness:
  "confirmCall (confirmPass 22 (Inr scenarioC) confirmOk) = Some (take 1 scenarioC)
   \<and> length (take 1 scenarioC) < length scenarioC
   \<and> map Number (drop (length (promoted (confirmPass 22 (Inr scenarioC) confirmOk))) scenarioC) = [11, 12]
   \<and> last (drop (length (promoted (confirmPass 22 (Inr scenarioC) confirmOk))) scenarioC) = last scenarioC
   \<and> promoted (confirmPass 22 (Inr (take 1 scenarioC)) confirmOk) = []
   \<and> last (drop (length (promoted (confirmPass 22 (Inr (take 1 scenarioC)) confirmOk))) (take 1 scenarioC))
       = last (take 1 scenarioC)"
proof -
  have c: "confirmCall (confirmPass 22 (Inr scenarioC) confirmOk) = Some (take 1 scenarioC)"
    by (simp add: confirmPass_def Let_def scenarioC_eval confirmOk_def) (simp add: scenarioC_def)
  have p: "promoted (confirmPass 22 (Inr scenarioC) confirmOk) = take 1 scenarioC"
    by (simp add: promoted_def c)
  have q: "promoted (confirmPass 22 (Inr (take 1 scenarioC)) confirmOk) = []"
    by (simp add: promoted_def confirmPass_def scenarioC_def)
  have ne: "scenarioC \<noteq> []" "take 1 scenarioC \<noteq> []" by (simp_all add: scenarioC_def)
  note whole = confirmPass_excludes_last [of 22 scenarioC confirmOk "take 1 scenarioC"]
  note single = confirmPass_excludes_last [of 22 "take 1 scenarioC" confirmOk "[]"]
  from whole c have A: "length (take 1 scenarioC) < length scenarioC" by blast
  from whole ne(1)
  have B: "last (drop (length (promoted (confirmPass 22 (Inr scenarioC) confirmOk))) scenarioC) =
             last scenarioC" by blast
  from single ne(2)
  have C: "last (drop (length (promoted (confirmPass 22 (Inr (take 1 scenarioC)) confirmOk))) (take 1 scenarioC))
             = last (take 1 scenarioC)" by blast
  have D: "map Number (drop (length (promoted (confirmPass 22 (Inr scenarioC) confirmOk))) scenarioC) = [11, 12]"
    by (simp add: p) (simp add: scenarioC_def)
  show ?thesis using c A D B q C by blast
qed

lemma confirmLoop_returned_append:
  assumes "cwReturned (confirmLoop pre s)" and "\<not> cwReturned s"
  shows "confirmLoop (pre @ evs) s = confirmLoop pre s"
  using assms
proof (induction pre s rule: confirmLoop.induct)
  case (1 s)
  thus ?case by simp
next
  case (2 evs' s)
  thus ?case by simp
next
  case (3 latest g c evs' s)
  thus ?case by (simp add: Let_def split: if_splits)
qed




section \<open>Properties of the fetch workers\<close>

text \<open>
  C3: the code does not do what the claim says. Block 7 is fetched and mapped to a \<open>Block\<close>
  record, \<^verbatim>\<open>CreateBlock\<close> is called with it and fails, and yet \<open>fetchAndStoreBlock\<close>
  returns no error and the worker sends nothing on the error channel.
\<close>

theorem FastWorker_drops_createBlock_error:
  "FastWorker None [Job 7 chain7 createFails] =
     \<lparr>fwErrors = [],
      fwCreated = [\<lparr>Number = 7, Hash = ''h7'', Time = 1600000000, ParentHash = ''h6'',
                    Transactions = [''t1'', ''t2''], Confirmed = False\<rparr>],
      fwReturned = False\<rparr>
   \<and> createFails \<lparr>Number = 7, Hash = ''h7'', Time = 1600000000, ParentHash = ''h6'',
                    Transactions = [''t1'', ''t2''], Confirmed = False\<rparr>
       = Some (Ext ''failed to create MySQL record'')
   \<and> fetchAndStoreBlock createFails chain7 7 =
       (None, Some \<lparr>Number = 7, Hash = ''h7'', Time = 1600000000, ParentHash = ''h6'',
                    Transactions = [''t1'', ''t2''], Confirmed = False\<rparr>)"
  by (simp add: FastWorker_def fetchAndStoreBlock_def chain7_def block7_def createFails_def Let_def)

text \<open>More generally, after a successful fetch no error is returned, whatever the repository does.\<close>

lemma fetchAndStoreBlock_never_reports_create:
  "getBlockByNumber number = Inr blockRaw \<Longrightarrow>
     fst (fetchAndStoreBlock createBlock getBlockByNumber number) = None"
  by (simp add: fetchAndStoreBlock_def Let_def)

section \<open>Properties of the on-demand transaction lookup\<close>

text \<open>
  C5. When the lookup in the store returns no record, the store is available and the chain
  node returns the transaction and its receipt, \<open>GetTransaction\<close> calls the node for both,
  stores the assembled transaction and returns it; a second call with the same hash
  returns the stored copy and makes no call to the node.
\<close>

theorem GetTransaction_fetch_and_cache:
  assumes "FindTransaction db hash = Inr None"
    and "fault db = None"
    and "GetTransactionByHash ethClient hash = Inr tx"
    and "GetTransactionReceipt ethClient hash = Inr txReceipt"
  shows "GetTransaction SQLStore ethClient db hash =
           (Inr (assembled hash tx txReceipt),
            db\<lparr>txRows := (txRows db)(hash \<mapsto> assembled hash tx txReceipt)\<rparr>,
            [TransactionByHash hash, TransactionReceipt hash])
       \<and> GetTransaction SQLStore ethClient
            (db\<lparr>txRows := (txRows db)(hash \<mapsto> assembled hash tx txReceipt)\<rparr>) hash =
           (Inr (assembled hash tx txReceipt),
            db\<lparr>txRows := (txRows db)(hash \<mapsto> assembled hash tx txReceipt)\<rparr>,
            [])"
proof -
  have miss: "txRows db hash = None"
    using assms(1,2) by (simp add: FindTransaction_def dbFirst_def split: option.splits)
  have first: "GetTransaction SQLStore ethClient db hash =
           (Inr (assembled hash tx txReceipt),
            db\<lparr>txRows := (txRows db)(hash \<mapsto> assembled hash tx txReceipt)\<rparr>,
            [TransactionByHash hash, TransactionReceipt hash])"
    using assms miss
    by (simp add: GetTransaction_def SQLStore_def CreateTransaction_def dbCreate_def assembled_def Let_def)
  have second: "GetTransaction SQLStore ethClient
            (db\<lparr>txRows := (txRows db)(hash \<mapsto> assembled hash tx txReceipt)\<rparr>) hash =
           (Inr (assembled hash tx txReceipt),
            db\<lparr>txRows := (txRows db)(hash \<mapsto> assembled hash tx txReceipt)\<rparr>,
            [])"
    using assms(2) by (simp add: GetTransaction_def SQLStore_def FindTransaction_def dbFirst_def)
  show ?thesis using first second by simp
qed

theorem GetTransaction_fetch_and_cache_witness:
  "FindTransaction emptyDB ''t1'' = Inr None
   \<and> GetTransaction SQLStore node1 emptyDB ''t1'' =
           (Inr (assembled ''t1'' tx1 receipt1),
            emptyDB\<lparr>txRows := (txRows emptyDB)(''t1'' \<mapsto> assembled ''t1'' tx1 receipt1)\<rparr>,
            [TransactionByHash ''t1'', TransactionReceipt ''t1''])
   \<and> GetTransaction SQLStore node1
            (emptyDB\<lparr>txRows := (txRows emptyDB)(''t1'' \<mapsto> assembled ''t1'' tx1 receipt1)\<rparr>) ''t1'' =
           (Inr (assembled ''t1'' tx1 receipt1),
            emptyDB\<lparr>txRows := (txRows emptyDB)(''t1'' \<mapsto> assembled ''t1'' tx1 receipt1)\<rparr>,
            [])"
proof -
  have a: "FindTransaction emptyDB ''t1'' = Inr None"
    by (simp add: FindTransaction_def dbFirst_def emptyDB_def)
  have b: "fault emptyDB = None" by (simp add: emptyDB_def)
  have c: "GetTransactionByHash node1 ''t1'' = Inr tx1" by (simp add: node1_def)
  have d: "GetTransactionReceipt node1 ''t1'' = Inr receipt1" by (simp add: node1_def)
  show ?thesis using a GetTransaction_fetch_and_cache [OF a b c d] by simp
qed

section \<open>Properties of the query surface\<close>

lemma Atoi_1: "Atoi ''1'' = Inr 1"
  by (simp add: Atoi_def isDigit_def digitVal_def)

text \<open>
  C10. A request without \<open>limit\<close> is handled as one with \<open>limit=1\<close>, and reaches the
  indexer with 1. When the parameter is not a number for \<^verbatim>\<open>strconv.Atoi\<close> or its value is
  below 1 or above 10, the response is 400 and the indexer is not called; and whenever the
  indexer is called, it is with the parsed limit, which lies between 1 and 10.
\<close>

theorem blocksHandler_limit:
  "blocksHandler repoGetNewBlocks None = blocksHandler repoGetNewBlocks (Some ''1'')
   \<and> snd (blocksHandler repoGetNewBlocks None) = [1]
   \<and> ((\<forall>limit. Atoi v = Inr limit \<longrightarrow> limit < 1 \<or> 10 < limit) \<longrightarrow>
        blocksHandler repoGetNewBlocks (Some v) =
          (\<lparr>status = StatusBadRequest, body = Message ''limit must be a number and between 1 and 10''\<rparr>, []))
   \<and> (snd (blocksHandler repoGetNewBlocks (Some v)) \<noteq> [] \<longrightarrow>
        (\<exists>limit. Atoi v = Inr limit \<and> 1 \<le> limit \<and> limit \<le> 10
           \<and> snd (blocksHandler repoGetNewBlocks (Some v)) = [limit]))"
proof (intro conjI impI)
  show "blocksHandler repoGetNewBlocks None = blocksHandler repoGetNewBlocks (Some ''1'')"
    by (simp add: blocksHandler_def DefaultQuery_def)
  show "snd (blocksHandler repoGetNewBlocks None) = [1]"
    by (simp add: blocksHandler_def DefaultQuery_def Atoi_1 Let_def split: prod.split option.split)
next
  assume "\<forall>limit. Atoi v = Inr limit \<longrightarrow> limit < 1 \<or> 10 < limit"
  thus "blocksHandler repoGetNewBlocks (Some v) =
          (\<lparr>status = StatusBadRequest, body = Message ''limit must be a number and between 1 and 10''\<rparr>, [])"
    by (cases "Atoi v") (auto simp add: blocksHandler_def DefaultQuery_def Let_def)
next
  assume "snd (blocksHandler repoGetNewBlocks (Some v)) \<noteq> []"
  thus "\<exists>limit. Atoi v = Inr limit \<and> 1 \<le> limit \<and> limit \<le> 10
           \<and> snd (blocksHandler repoGetNewBlocks (Some v)) = [limit]"
    by (cases "Atoi v")
       (auto simp add: blocksHandler_def DefaultQuery_def Let_def split: if_splits prod.splits option.splits)
qed

theorem blocksHandler_limit_witness:
  "blocksHandler noBlocks (Some ''abc'') =
     (\<lparr>status = StatusBadRequest, body = Message ''limit must be a number and between 1 and 10''\<rparr>, [])
   \<and> blocksHandler noBlocks (Some ''0'') =
     (\<lparr>status = StatusBadRequest, body = Message ''limit must be a number and between 1 and 10''\<rparr>, [])
   \<and> blocksHandler noBlocks (Some ''11'') =
     (\<lparr>status = StatusBadRequest, body = Message ''limit must be a number and between 1 and 10''\<rparr>, [])
   \<and> Atoi ''abc'' = Inl (ErrSyntax ''abc'') \<and> Atoi ''0'' = Inr 0 \<and> Atoi ''11'' = Inr 11
   \<and> Atoi ''5'' = Inr 5 \<and> snd (blocksHandler noBlocks (Some ''5'')) = [5]
   \<and> snd (blocksHandler noBlocks None) = [1]"
proof -
  have a: "Atoi ''abc'' = Inl (ErrSyntax ''abc'')" "Atoi ''0'' = Inr 0" "Atoi ''11'' = Inr 11"
      "Atoi ''5'' = Inr 5"
    by (simp_all add: Atoi_def isDigit_def digitVal_def)
  have five: "snd (blocksHandler noBlocks (Some ''5'')) \<noteq> []"
    by (simp add: blocksHandler_def DefaultQuery_def a GetNewBlocks_def noBlocks_def)
  show ?thesis
    using a five blocksHandler_limit [of noBlocks "''abc''"] blocksHandler_limit [of noBlocks "''0''"]
      blocksHandler_limit [of noBlocks "''11''"] blocksHandler_limit [of noBlocks "''5''"]
    by simp
qed

end
